theory Spec2Isabelle
  imports Main "HOL-Library.Multiset"
begin

section \<open>Data model of the post resolvers\<close>

text \<open>
  The records follow the fields that \<^verbatim>\<open>server/src/types/post.ts\<close> reads and writes.
  Identifiers are strings (GraphQL \<^verbatim>\<open>ID\<close>), timestamps are integers (milliseconds of
  a JavaScript \<^verbatim>\<open>Date\<close>), vote values are integers (sums of 32-bit values are exact
  in JavaScript numbers).  A JavaScript string is a sequence of code units; one \<open>char\<close>
  stands for one code unit.
\<close>

record Post =
  post_id :: string
  post_title :: string
  post_body :: string
  post_image :: "string option"
  post_creatorId :: string
  post_subName :: string
  post_createdAt :: int
  post_updatedAt :: int

record PostVote =
  vote_userId :: string
  vote_postId :: string
  vote_value :: int

record UserSub =
  usub_userId :: string
  usub_subName :: string

record Comment =
  comment_id :: string
  comment_postId :: string
  comment_body :: string
  comment_createdAt :: int

text \<open>
  A nullable, optional field of a GraphQL input object has three states in JavaScript:
  the key is missing (\<^verbatim>\<open>undefined\<close>), it is \<^verbatim>\<open>null\<close>, or it holds a value.
\<close>

datatype 'a js_field = Undefined | Null | Value 'a

record PostInput =
  in_title :: string
  in_body :: string
  in_image :: "string js_field"

record PaginationInput =
  pg_cursor :: "string option"
  pg_take :: int

record Session =
  userId :: string

record Request =
  req_session :: "Session option"

text \<open>The writes a store has applied, in order (a trace kept beside the tables).\<close>

datatype Write = Created string | Updated string | Deleted string

record Store =
  posts :: "Post list"
  postVotes :: "PostVote list"
  userSubs :: "UserSub list"
  comments :: "Comment list"
  subs :: "string list"
  writeLog :: "Write list"

datatype StoreError = UniqueConstraint | ForeignKeyConstraint | RecordNotFound

datatype Fault =
    Unauthenticated
  | TypeError
  | UserInputError string
  | ApolloError string
  | StoreFault StoreError

record PaginatedPosts =
  pp_hasMore :: bool
  pp_posts :: "Post list"

record PaginatedComments =
  pc_hasMore :: bool
  pc_comments :: "Comment list"

section \<open>The record store (the ORM client \<^verbatim>\<open>prisma\<close>)\<close>

text \<open>
  The fetch directive that is spread into \<^verbatim>\<open>findMany\<close>: how many rows to take, how
  many to skip, and the identifier of the row to start at.
\<close>

record FetchDirective =
  fd_take :: int
  fd_skip :: nat
  fd_cursor :: "string option"

text \<open>
  Paging of an ordered row list.  A cursor positions the read at the row with that
  identifier (no such row: nothing is read); a non-negative \<open>take\<close> reads forwards from
  there, a negative one reads the rows that end at the cursor.
\<close>

definition from_cursor :: "('r \<Rightarrow> string) \<Rightarrow> string option \<Rightarrow> 'r list \<Rightarrow> 'r list" where
  "from_cursor key c rows =
     (case c of None \<Rightarrow> rows | Some i \<Rightarrow> dropWhile (\<lambda>r. key r \<noteq> i) rows)"

definition upto_cursor :: "('r \<Rightarrow> string) \<Rightarrow> string option \<Rightarrow> 'r list \<Rightarrow> 'r list" where
  "upto_cursor key c rows =
     (case c of None \<Rightarrow> rows
      | Some i \<Rightarrow> (if i \<in> set (map key rows)
                   then takeWhile (\<lambda>r. key r \<noteq> i) rows @ take 1 (dropWhile (\<lambda>r. key r \<noteq> i) rows)
                   else []))"

definition eligible :: "('r \<Rightarrow> string) \<Rightarrow> FetchDirective \<Rightarrow> 'r list \<Rightarrow> 'r list" where
  "eligible key d rows = drop (fd_skip d) (from_cursor key (fd_cursor d) rows)"

definition paginate :: "('r \<Rightarrow> string) \<Rightarrow> FetchDirective \<Rightarrow> 'r list \<Rightarrow> 'r list" where
  "paginate key d rows =
     (if 0 \<le> fd_take d then take (nat (fd_take d)) (eligible key d rows)
      else (let upto = upto_cursor key (fd_cursor d) rows;
                kept = take (length upto - fd_skip d) upto
            in drop (length kept - nat (- fd_take d)) kept))"

text \<open>\<^verbatim>\<open>orderBy: { createdAt: "desc" }\<close>: newest first, rows of equal time in table order.\<close>

definition order_desc :: "('r \<Rightarrow> int) \<Rightarrow> 'r list \<Rightarrow> 'r list" where
  "order_desc createdAt rows = sort_key (\<lambda>r. - createdAt r) rows"

definition post_findMany :: "Store \<Rightarrow> (Post \<Rightarrow> bool) \<Rightarrow> FetchDirective \<Rightarrow> Post list" where
  "post_findMany st wher d =
     paginate post_id d (order_desc post_createdAt (filter wher (posts st)))"

definition comment_findMany :: "Store \<Rightarrow> (Comment \<Rightarrow> bool) \<Rightarrow> FetchDirective \<Rightarrow> Comment list" where
  "comment_findMany st wher d =
     paginate comment_id d (order_desc comment_createdAt (filter wher (comments st)))"

definition postVote_findMany :: "Store \<Rightarrow> (PostVote \<Rightarrow> bool) \<Rightarrow> PostVote list" where
  "postVote_findMany st wher = filter wher (postVotes st)"

definition postVote_findUnique :: "Store \<Rightarrow> string \<Rightarrow> string \<Rightarrow> PostVote option" where
  "postVote_findUnique st uid pid =
     find (\<lambda>v. vote_userId v = uid \<and> vote_postId v = pid) (postVotes st)"

definition userSub_findMany :: "Store \<Rightarrow> (UserSub \<Rightarrow> bool) \<Rightarrow> UserSub list" where
  "userSub_findMany st wher = filter wher (userSubs st)"

definition post_findUnique :: "Store \<Rightarrow> string \<Rightarrow> Post option" where
  "post_findUnique st i = find (\<lambda>p. post_id p = i) (posts st)"

text \<open>
  Writes.  A create fails on a taken identifier and on a community that does not exist;
  an update or a delete fails when no row has the identifier.  A failed write leaves
  every table as it was; an applied write is appended to the trace.  The new row's
  identifier and the clock are inputs, since the store draws them.
\<close>

record PostCreateData =
  cd_creatorId :: string
  cd_subName :: string
  cd_title :: string
  cd_body :: string
  cd_image :: "string js_field"

record PostUpdateData =
  ud_title :: string
  ud_body :: string
  ud_image :: "string js_field"
  ud_updatedAt :: int

definition stored_image :: "string js_field \<Rightarrow> string option" where
  "stored_image f = (case f of Value s \<Rightarrow> Some s | Null \<Rightarrow> None | Undefined \<Rightarrow> None)"

definition post_create :: "Store \<Rightarrow> string \<Rightarrow> int \<Rightarrow> PostCreateData \<Rightarrow> StoreError + (Store \<times> Post)" where
  "post_create st newId now d =
     (if newId \<in> set (map post_id (posts st)) then Inl UniqueConstraint
      else if cd_subName d \<notin> set (subs st) then Inl ForeignKeyConstraint
      else (let post = \<lparr> post_id = newId, post_title = cd_title d, post_body = cd_body d,
                          post_image = stored_image (cd_image d), post_creatorId = cd_creatorId d,
                          post_subName = cd_subName d, post_createdAt = now, post_updatedAt = now \<rparr>
            in Inr (st\<lparr> posts := posts st @ [post], writeLog := writeLog st @ [Created newId] \<rparr>, post)))"

definition apply_update :: "PostUpdateData \<Rightarrow> Post \<Rightarrow> Post" where
  "apply_update d p =
     p\<lparr> post_title := ud_title d, post_body := ud_body d,
        post_image := (case ud_image d of Undefined \<Rightarrow> post_image p | Null \<Rightarrow> None | Value s \<Rightarrow> Some s),
        post_updatedAt := ud_updatedAt d \<rparr>"

definition post_update :: "Store \<Rightarrow> string \<Rightarrow> PostUpdateData \<Rightarrow> StoreError + (Store \<times> Post)" where
  "post_update st i d =
     (case post_findUnique st i of
        None \<Rightarrow> Inl RecordNotFound
      | Some p \<Rightarrow>
          Inr (st\<lparr> posts := map (\<lambda>q. if post_id q = i then apply_update d q else q) (posts st),
                    writeLog := writeLog st @ [Updated i] \<rparr>,
               apply_update d p))"

text \<open>
  Votes and comments refer to their post.  What the delete of a post does while rows
  still refer to it is the referential action of the schema, which is not among the
  sources and is a parameter: \<open>Restrict\<close> refuses the delete and leaves every table as it
  was, \<open>Cascade\<close> deletes the referring votes and comments with the post, in the one
  delete.
\<close>

datatype ReferentialAction = Restrict | Cascade

definition has_dependents :: "Store \<Rightarrow> string \<Rightarrow> bool" where
  "has_dependents st i =
     (list_ex (\<lambda>v. vote_postId v = i) (postVotes st) \<or> list_ex (\<lambda>c. comment_postId c = i) (comments st))"

definition post_delete :: "ReferentialAction \<Rightarrow> Store \<Rightarrow> string \<Rightarrow> StoreError + Store" where
  "post_delete onDelete st i =
     (case post_findUnique st i of
        None \<Rightarrow> Inl RecordNotFound
      | Some p \<Rightarrow>
          if onDelete = Restrict \<and> has_dependents st i then Inl ForeignKeyConstraint
          else Inr (st\<lparr> posts := filter (\<lambda>q. post_id q \<noteq> i) (posts st),
                         postVotes := filter (\<lambda>v. vote_postId v \<noteq> i) (postVotes st),
                         comments := filter (\<lambda>c. comment_postId c \<noteq> i) (comments st),
                         writeLog := writeLog st @ [Deleted i] \<rparr>))"

section \<open>Helpers of \<^verbatim>\<open>server/src/lib\<close>\<close>

text \<open>
  Modelled from the spec: \<^verbatim>\<open>getSession\<close> of \<^verbatim>\<open>lib/auth\<close> is not among the
  sources.  The spec's session boundary: a single accessor returning \<^verbatim>\<open>{userId}\<close> or
  null, with an optional "require authentication" mode that signals a fault if the
  session is absent.
\<close>

definition getSession :: "Request \<Rightarrow> bool \<Rightarrow> Fault + Session option" where
  "getSession req required =
     (case req_session req of
        None \<Rightarrow> (if required then Inl Unauthenticated else Inr None)
      | Some s \<Rightarrow> Inr (Some s))"

text \<open>
  Modelled from the spec: \<^verbatim>\<open>getPaginationData\<close> of \<^verbatim>\<open>lib/paginate\<close> is not among
  the sources.  The spec's pagination helper: given a cursor and a requested size N, a
  fetch directive that retrieves N+1 records starting after the cursor.  The resolvers
  below take the helper as a parameter; this is the instance the spec describes.
\<close>

definition getPaginationData :: "PaginationInput \<Rightarrow> FetchDirective" where
  "getPaginationData input =
     \<lparr> fd_take = pg_take input + 1,
       fd_skip = (case pg_cursor input of None \<Rightarrow> 0 | Some c \<Rightarrow> 1),
       fd_cursor = pg_cursor input \<rparr>"

section \<open>JavaScript primitives used by the resolvers\<close>

text \<open>\<^verbatim>\<open>xs.slice(0, e)\<close>: a negative \<open>e\<close> counts from the end, and the end is clamped.\<close>

definition js_slice0 :: "'a list \<Rightarrow> int \<Rightarrow> 'a list" where
  "js_slice0 xs e =
     (let len = int (length xs);
          k = (if e < 0 then max (len + e) 0 else min e len)
      in take (nat k) xs)"

text \<open>\<^verbatim>\<open>session?.userId\<close> as a condition: the session is there and its id is not empty.\<close>

definition truthy_string :: "string option \<Rightarrow> string option" where
  "truthy_string v = (case v of None \<Rightarrow> None | Some x \<Rightarrow> (if x = [] then None else Some x))"

definition truthy_userId :: "Session option \<Rightarrow> string option" where
  "truthy_userId s = (case s of None \<Rightarrow> None | Some x \<Rightarrow> truthy_string (Some (userId x)))"

section \<open>Field resolvers of \<^verbatim>\<open>Post\<close>\<close>

text \<open>
  Every resolver takes the store and returns it with its result, so that a write would
  show in the returned store.  The resolver of the field \<^verbatim>\<open>comments\<close> is named
  \<open>comments_resolver\<close>, since \<open>comments\<close> is the store's table.
\<close>

definition votes :: "Store \<Rightarrow> Post \<Rightarrow> Store \<times> int" where
  "votes st parent =
     (let voteArr = postVote_findMany st (\<lambda>v. vote_postId v = post_id parent)
      in (st, foldl (\<lambda>prev curr. prev + vote_value curr) 0 voteArr))"

definition comments_resolver ::
  "(PaginationInput \<Rightarrow> FetchDirective) \<Rightarrow> Store \<Rightarrow> Post \<Rightarrow> PaginationInput \<Rightarrow> Store \<times> PaginatedComments" where
  "comments_resolver paginationData st parent input =
     (let pagination = paginationData input;
          cs = comment_findMany st (\<lambda>c. comment_postId c = post_id parent) pagination
      in (st, \<lparr> pc_hasMore = (int (length cs) = pg_take input + 1),
                pc_comments = js_slice0 cs (pg_take input) \<rparr>))"

definition voteStatus :: "Store \<Rightarrow> Request \<Rightarrow> Post \<Rightarrow> Store \<times> (Fault + int)" where
  "voteStatus st req parent =
     (case getSession req False of
        Inl f \<Rightarrow> (st, Inl f)
      | Inr session \<Rightarrow>
          (case truthy_userId session of
             None \<Rightarrow> (st, Inr 0)
           | Some uid \<Rightarrow>
               (case postVote_findUnique st uid (post_id parent) of
                  None \<Rightarrow> (st, Inr 0)
                | Some vote \<Rightarrow> (st, Inr (vote_value vote)))))"

section \<open>Mutations\<close>

text \<open>
  \<^verbatim>\<open>validatePost\<close> of \<^verbatim>\<open>lib/validate\<close> is not among the sources; \<open>createPost\<close>
  takes it as a parameter that returns a message or nothing (\<^verbatim>\<open>undefined\<close>).  The
  condition \<^verbatim>\<open>if (error)\<close> holds for a message that is not the empty string.
\<close>

definition createPost ::
  "(PostInput \<Rightarrow> string option) \<Rightarrow> Store \<Rightarrow> Request \<Rightarrow> string \<Rightarrow> int \<Rightarrow> string \<Rightarrow> PostInput
     \<Rightarrow> Store \<times> (Fault + Post)" where
  "createPost validatePost st req newId now subName input =
     (case getSession req True of
        Inl f \<Rightarrow> (st, Inl f)
      | Inr None \<Rightarrow> (st, Inl TypeError)
      | Inr (Some session) \<Rightarrow>
          (case truthy_string (validatePost input) of
             Some error \<Rightarrow> (st, Inl (UserInputError error))
           | None \<Rightarrow>
               (case post_create st newId now
                       \<lparr> cd_creatorId = userId session, cd_subName = subName,
                         cd_title = in_title input, cd_body = in_body input,
                         cd_image = in_image input \<rparr> of
                  Inl e \<Rightarrow> (st, Inl (ApolloError ''sub not found''))
                | Inr (st', post) \<Rightarrow> (st', Inr post))))"

definition editPost ::
  "Store \<Rightarrow> Request \<Rightarrow> int \<Rightarrow> string \<Rightarrow> PostInput \<Rightarrow> Store \<times> (Fault + Post)" where
  "editPost st req now postId input =
     (case getSession req True of
        Inl f \<Rightarrow> (st, Inl f)
      | Inr None \<Rightarrow> (st, Inl TypeError)
      | Inr (Some session) \<Rightarrow>
          (case post_findUnique st postId of
             None \<Rightarrow> (st, Inl (ApolloError ''post not found''))
           | Some postExists \<Rightarrow>
               if post_creatorId postExists \<noteq> userId session
               then (st, Inl (ApolloError ''cannot update post''))
               else (case post_update st postId
                            \<lparr> ud_title = in_title input, ud_body = in_body input,
                              ud_image = in_image input, ud_updatedAt = now \<rparr> of
                       Inl e \<Rightarrow> (st, Inl (StoreFault e))
                     | Inr (st', post) \<Rightarrow> (st', Inr post))))"

definition deletePost ::
  "ReferentialAction \<Rightarrow> Store \<Rightarrow> Request \<Rightarrow> string \<Rightarrow> Store \<times> (Fault + bool)" where
  "deletePost onDelete st req postId =
     (case getSession req True of
        Inl f \<Rightarrow> (st, Inl f)
      | Inr None \<Rightarrow> (st, Inl TypeError)
      | Inr (Some session) \<Rightarrow>
          (case post_findUnique st postId of
             None \<Rightarrow> (st, Inl (ApolloError ''post not found''))
           | Some postExists \<Rightarrow>
               if post_creatorId postExists \<noteq> userId session
               then (st, Inl (ApolloError ''cannot update post''))
               else (case post_delete onDelete st postId of
                       Inl e \<Rightarrow> (st, Inl (StoreFault e))
                     | Inr st' \<Rightarrow> (st', Inr True))))"

section \<open>Queries\<close>

text \<open>The rows that \<open>feed\<close> fetches, before the page is cut.\<close>

definition feed_fetch ::
  "(PaginationInput \<Rightarrow> FetchDirective) \<Rightarrow> Store \<Rightarrow> Session option \<Rightarrow> PaginationInput \<Rightarrow> Post list" where
  "feed_fetch paginationData st session input =
     (let pagination = paginationData input in
      case truthy_userId session of
        Some uid \<Rightarrow>
          (let sbs = userSub_findMany st (\<lambda>s. usub_userId s = uid);
               subNames = map usub_subName sbs
           in post_findMany st (\<lambda>p. post_subName p \<in> set subNames) pagination)
      | None \<Rightarrow> post_findMany st (\<lambda>p. True) pagination)"

definition feed ::
  "(PaginationInput \<Rightarrow> FetchDirective) \<Rightarrow> Store \<Rightarrow> Request \<Rightarrow> PaginationInput
     \<Rightarrow> Store \<times> (Fault + PaginatedPosts)" where
  "feed paginationData st req input =
     (case getSession req False of
        Inl f \<Rightarrow> (st, Inl f)
      | Inr session \<Rightarrow>
          (let ps = feed_fetch paginationData st session input
           in (st, Inr \<lparr> pp_hasMore = (int (length ps) = pg_take input + 1),
                         pp_posts = js_slice0 ps (pg_take input) \<rparr>)))"

text \<open>
  \<^verbatim>\<open>orderBy: { createdAt: "desc" }\<close> names no second key, so the order of two posts of
  equal \<open>createdAt\<close> is the store's choice at each query.  \<open>feed_scan\<close> is \<open>feed\<close> over a
  store that reads the matching rows in an order \<open>scan\<close> of its own before it sorts them
  by \<open>createdAt\<close>; \<open>feed\<close> is the case of the table order.  \<open>feed_repeat\<close> evaluates the
  resolver once for each scan of a list, each evaluation on the store the one before
  returned, and collects the results.
\<close>

definition post_findMany_scan ::
  "(Post list \<Rightarrow> Post list) \<Rightarrow> Store \<Rightarrow> (Post \<Rightarrow> bool) \<Rightarrow> FetchDirective \<Rightarrow> Post list" where
  "post_findMany_scan scan st wher d =
     paginate post_id d (order_desc post_createdAt (scan (filter wher (posts st))))"

definition feed_fetch_scan ::
  "(Post list \<Rightarrow> Post list) \<Rightarrow> (PaginationInput \<Rightarrow> FetchDirective) \<Rightarrow> Store \<Rightarrow> Session option
     \<Rightarrow> PaginationInput \<Rightarrow> Post list" where
  "feed_fetch_scan scan paginationData st session input =
     (let pagination = paginationData input in
      case truthy_userId session of
        Some uid \<Rightarrow>
          (let sbs = userSub_findMany st (\<lambda>s. usub_userId s = uid);
               subNames = map usub_subName sbs
           in post_findMany_scan scan st (\<lambda>p. post_subName p \<in> set subNames) pagination)
      | None \<Rightarrow> post_findMany_scan scan st (\<lambda>p. True) pagination)"

definition feed_scan ::
  "(Post list \<Rightarrow> Post list) \<Rightarrow> (PaginationInput \<Rightarrow> FetchDirective) \<Rightarrow> Store \<Rightarrow> Request
     \<Rightarrow> PaginationInput \<Rightarrow> Store \<times> (Fault + PaginatedPosts)" where
  "feed_scan scan paginationData st req input =
     (case getSession req False of
        Inl f \<Rightarrow> (st, Inl f)
      | Inr session \<Rightarrow>
          (let ps = feed_fetch_scan scan paginationData st session input
           in (st, Inr \<lparr> pp_hasMore = (int (length ps) = pg_take input + 1),
                         pp_posts = js_slice0 ps (pg_take input) \<rparr>)))"


section \<open>Registration input validation\<close>

text \<open>
  \<^verbatim>\<open>validateRegister\<close> tests its input with two regular expressions.  A pattern is
  a term of \<open>rx\<close>: \<open>Cls\<close> is a character class given by its ranges, \<open>Lit\<close> one
  character, \<open>Plus r\<close> is \<^verbatim>\<open>r+\<close>, \<open>Rep m n r\<close> is \<^verbatim>\<open>r{m,n}\<close>.  The matcher
  takes the derivative of the pattern by each character of the string in turn.
\<close>

datatype rx =
    Empty
  | Eps
  | Cls "(char \<times> char) list"
  | Seq rx rx
  | Alt rx rx
  | Star rx

definition in_range :: "char \<times> char \<Rightarrow> char \<Rightarrow> bool" where
  "in_range r c = ((of_char (fst r) :: nat) \<le> of_char c \<and> (of_char c :: nat) \<le> of_char (snd r))"

definition in_class :: "(char \<times> char) list \<Rightarrow> char \<Rightarrow> bool" where
  "in_class rs c = list_ex (\<lambda>r. in_range r c) rs"

definition Lit :: "char \<Rightarrow> rx" where
  "Lit c = Cls [(c, c)]"

definition Plus :: "rx \<Rightarrow> rx" where
  "Plus r = Seq r (Star r)"

fun rx_times :: "rx \<Rightarrow> nat \<Rightarrow> rx" where
  "rx_times r 0 = Eps"
| "rx_times r (Suc k) = Seq r (rx_times r k)"

fun rx_upto :: "rx \<Rightarrow> nat \<Rightarrow> rx" where
  "rx_upto r 0 = Eps"
| "rx_upto r (Suc k) = Alt Eps (Seq r (rx_upto r k))"

definition Rep :: "nat \<Rightarrow> nat \<Rightarrow> rx \<Rightarrow> rx" where
  "Rep m n r = Seq (rx_times r m) (rx_upto r (n - m))"

fun nullable :: "rx \<Rightarrow> bool" where
  "nullable Empty = False"
| "nullable Eps = True"
| "nullable (Cls rs) = False"
| "nullable (Seq r s) = (nullable r \<and> nullable s)"
| "nullable (Alt r s) = (nullable r \<or> nullable s)"
| "nullable (Star r) = True"

fun deriv :: "char \<Rightarrow> rx \<Rightarrow> rx" where
  "deriv c Empty = Empty"
| "deriv c Eps = Empty"
| "deriv c (Cls rs) = (if in_class rs c then Eps else Empty)"
| "deriv c (Seq r s) =
     (if nullable r then Alt (Seq (deriv c r) s) (deriv c s) else Seq (deriv c r) s)"
| "deriv c (Alt r s) = Alt (deriv c r) (deriv c s)"
| "deriv c (Star r) = Seq (deriv c r) (Star r)"

fun rx_match :: "rx \<Rightarrow> string \<Rightarrow> bool" where
  "rx_match r [] = nullable r"
| "rx_match r (c # s) = rx_match (deriv c r) s"

fun rx_prefix :: "rx \<Rightarrow> string \<Rightarrow> bool" where
  "rx_prefix r [] = nullable r"
| "rx_prefix r (c # s) = (nullable r \<or> rx_prefix (deriv c r) s)"

fun rx_suffix :: "rx \<Rightarrow> string \<Rightarrow> bool" where
  "rx_suffix r [] = nullable r"
| "rx_suffix r (c # s) = (rx_match r (c # s) \<or> rx_suffix r s)"

fun rx_search :: "rx \<Rightarrow> string \<Rightarrow> bool" where
  "rx_search r [] = nullable r"
| "rx_search r (c # s) = (rx_prefix r (c # s) \<or> rx_search r s)"

text \<open>
  A regular expression literal: its pattern, and whether \<^verbatim>\<open>^\<close> and \<^verbatim>\<open>$\<close> tie it
  to the ends of the string.  \<^verbatim>\<open>RegExp.test\<close> without anchors searches the string for
  a part that matches.
\<close>

record regex =
  at_start :: bool
  pattern :: rx
  at_end :: bool

definition regex_test :: "regex \<Rightarrow> string \<Rightarrow> bool" where
  "regex_test re s =
     (if at_start re then (if at_end re then rx_match (pattern re) s else rx_prefix (pattern re) s)
      else (if at_end re then rx_suffix (pattern re) s else rx_search (pattern re) s))"

text \<open>
  \<^verbatim>\<open>/^([a-zA-Z0-9_\.\-])+\@(([a-zA-Z0-9\-])+\.)+([a-zA-Z0-9]{2,4})+$/\<close> and
  \<^verbatim>\<open>/[a-zA-Z0-9]{3,12}/\<close>.
\<close>

definition alnum :: "(char \<times> char) list" where
  "alnum = [(CHR ''a'', CHR ''z''), (CHR ''A'', CHR ''Z''), (CHR ''0'', CHR ''9'')]"

definition emailRegex :: regex where
  "emailRegex =
     \<lparr> at_start = True,
       pattern =
         Seq (Plus (Cls (alnum @ [(CHR ''_'', CHR ''_''), (CHR ''.'', CHR ''.''), (CHR ''-'', CHR ''-'')])))
        (Seq (Lit CHR ''@'')
        (Seq (Plus (Seq (Plus (Cls (alnum @ [(CHR ''-'', CHR ''-'')]))) (Lit CHR ''.'')))
             (Plus (Rep 2 4 (Cls alnum))))),
       at_end = True \<rparr>"

definition usernameRegex :: regex where
  "usernameRegex = \<lparr> at_start = False, pattern = Rep 3 12 (Cls alnum), at_end = False \<rparr>"

record RegisterInput =
  ri_email :: string
  ri_password :: string
  ri_username :: string

definition validateRegister :: "RegisterInput \<Rightarrow> string option" where
  "validateRegister input =
     (if \<not> regex_test emailRegex (ri_email input) then Some ''incorrect email''
      else if \<not> regex_test usernameRegex (ri_username input) then Some ''username should be 3-12 characters''
      else if length (ri_password input) < 4 then Some ''password must be at least 8 characters''
      else None)"

section \<open>Notions used to state the properties\<close>

text \<open>
  The rows eligible for a page: those that match the resolver's filter, in the
  resolver's order, from the position the fetch directive starts at.
\<close>

definition feed_where :: "Store \<Rightarrow> Session option \<Rightarrow> Post \<Rightarrow> bool" where
  "feed_where st session p =
     (case truthy_userId session of
        None \<Rightarrow> True
      | Some uid \<Rightarrow> post_subName p \<in> usub_subName ` {s \<in> set (userSubs st). usub_userId s = uid})"

definition feed_eligible ::
  "(PaginationInput \<Rightarrow> FetchDirective) \<Rightarrow> Store \<Rightarrow> Session option \<Rightarrow> PaginationInput \<Rightarrow> Post list" where
  "feed_eligible paginationData st session input =
     eligible post_id (paginationData input)
       (order_desc post_createdAt (filter (feed_where st session) (posts st)))"

definition comments_eligible ::
  "(PaginationInput \<Rightarrow> FetchDirective) \<Rightarrow> Store \<Rightarrow> Post \<Rightarrow> PaginationInput \<Rightarrow> Comment list" where
  "comments_eligible paginationData st parent input =
     eligible comment_id (paginationData input)
       (order_desc comment_createdAt (filter (\<lambda>c. comment_postId c = post_id parent) (comments st)))"

text \<open>The characters of \<^verbatim>\<open>[a-zA-Z0-9]\<close>, by their codes.\<close>

definition is_alnum :: "char \<Rightarrow> bool" where
  "is_alnum c =
     (let n = (of_char c :: nat)
      in (97 \<le> n \<and> n \<le> 122) \<or> (65 \<le> n \<and> n \<le> 90) \<or> (48 \<le> n \<and> n \<le> 57))"

text \<open>The set of strings a pattern denotes.\<close>

definition conc :: "string set \<Rightarrow> string set \<Rightarrow> string set" where
  "conc A B = {xs @ ys | xs ys. xs \<in> A \<and> ys \<in> B}"

inductive_set star :: "string set \<Rightarrow> string set" for A :: "string set" where
  star_nil: "[] \<in> star A"
| star_app: "xs \<in> A \<Longrightarrow> ys \<in> star A \<Longrightarrow> xs @ ys \<in> star A"

fun lang :: "rx \<Rightarrow> string set" where
  "lang Empty = {}"
| "lang Eps = {[]}"
| "lang (Cls rs) = {[c] | c. in_class rs c}"
| "lang (Seq r s) = conc (lang r) (lang s)"
| "lang (Alt r s) = lang r \<union> lang s"
| "lang (Star r) = star (lang r)"

section \<open>Sample data\<close>

definition mk_post :: "string \<Rightarrow> string \<Rightarrow> string \<Rightarrow> int \<Rightarrow> Post" where
  "mk_post i creator sub t =
     \<lparr> post_id = i, post_title = ''title'', post_body = ''body'', post_image = None,
       post_creatorId = creator, post_subName = sub, post_createdAt = t, post_updatedAt = t \<rparr>"

definition sample_store :: Store where
  "sample_store =
     \<lparr> posts = [mk_post ''p1'' ''alice'' ''cats'' 10, mk_post ''p2'' ''bob'' ''dogs'' 20,
                mk_post ''p3'' ''alice'' ''cats'' 30],
       postVotes = [\<lparr> vote_userId = ''alice'', vote_postId = ''p1'', vote_value = 1 \<rparr>,
                    \<lparr> vote_userId = ''bob'', vote_postId = ''p1'', vote_value = 1 \<rparr>,
                    \<lparr> vote_userId = ''carol'', vote_postId = ''p1'', vote_value = - 1 \<rparr>],
       userSubs = [\<lparr> usub_userId = ''alice'', usub_subName = ''cats'' \<rparr>],
       comments = [\<lparr> comment_id = ''c1'', comment_postId = ''p1'', comment_body = ''x'', comment_createdAt = 11 \<rparr>,
                   \<lparr> comment_id = ''c2'', comment_postId = ''p1'', comment_body = ''y'', comment_createdAt = 12 \<rparr>],
       subs = [''cats'', ''dogs''],
       writeLog = [] \<rparr>"

definition anonymous :: Request where
  "anonymous = \<lparr> req_session = None \<rparr>"

definition as_user :: "string \<Rightarrow> Request" where
  "as_user u = \<lparr> req_session = Some \<lparr> userId = u \<rparr> \<rparr>"

definition first_page :: "int \<Rightarrow> PaginationInput" where
  "first_page n = \<lparr> pg_cursor = None, pg_take = n \<rparr>"

definition p1 :: Post where "p1 = mk_post ''p1'' ''alice'' ''cats'' 10"

definition p2 :: Post where "p2 = mk_post ''p2'' ''bob'' ''dogs'' 20"

definition p3 :: Post where "p3 = mk_post ''p3'' ''alice'' ''cats'' 30"


definition t2 :: Post where "t2 = mk_post ''t2'' ''bob'' ''cats'' 10"


definition title_required :: "PostInput \<Rightarrow> string option" where
  "title_required input = (if in_title input = [] then Some ''title cannot be empty'' else None)"

definition good_input :: PostInput where
  "good_input = \<lparr> in_title = ''hello'', in_body = ''world'', in_image = Undefined \<rparr>"

definition bad_input :: PostInput where
  "bad_input = \<lparr> in_title = [], in_body = ''world'', in_image = Undefined \<rparr>"

section \<open>Lemmas on paging and the store\<close>

lemma js_slice0_pos: "0 \<le> e \<Longrightarrow> js_slice0 xs e = take (nat e) xs"
  by (simp add: js_slice0_def Let_def min_def)

lemma paginate_forward:
  "0 \<le> fd_take d \<Longrightarrow> paginate key d rows = take (nat (fd_take d)) (eligible key d rows)"
  by (simp add: paginate_def)

lemma lookahead_core:
  assumes "0 < t" and "fd_take d = t + 1"
  shows "(int (length (paginate key d rows)) = t + 1) = (t + 1 \<le> int (length (eligible key d rows)))"
    and "js_slice0 (paginate key d rows) t = take (nat t) (eligible key d rows)"
  using assms by (auto simp: paginate_forward js_slice0_pos min_def)

lemma feed_fetch_eq:
  "feed_fetch gpd st session input =
     paginate post_id (gpd input) (order_desc post_createdAt (filter (feed_where st session) (posts st)))"
  by (auto simp: feed_fetch_def feed_where_def post_findMany_def userSub_findMany_def Let_def
           split: option.splits intro!: arg_cong[where f="\<lambda>P. paginate _ _ (order_desc _ (filter P _))"])

lemma getSession_optional: "getSession req False = Inr (req_session req)"
  by (simp add: getSession_def split: option.splits)

lemma feed_eq:
  "feed gpd st req input =
     (st, Inr \<lparr> pp_hasMore = (int (length (feed_fetch gpd st (req_session req) input)) = pg_take input + 1),
                pp_posts = js_slice0 (feed_fetch gpd st (req_session req) input) (pg_take input) \<rparr>)"
  by (simp add: feed_def getSession_optional Let_def)

lemma feed_lookahead_eligible:
  assumes "0 < pg_take input" and h: "fd_take (gpd input) = pg_take input + 1"
  shows "feed gpd st req input =
           (st, Inr \<lparr> pp_hasMore = (pg_take input + 1 \<le> int (length (feed_eligible gpd st (req_session req) input))),
                      pp_posts = take (nat (pg_take input)) (feed_eligible gpd st (req_session req) input) \<rparr>)"
  by (simp add: feed_eq feed_fetch_eq feed_eligible_def lookahead_core[OF assms])

lemma comments_lookahead_eligible:
  assumes "0 < pg_take input" and h: "fd_take (gpd input) = pg_take input + 1"
  shows "comments_resolver gpd st parent input =
           (st, \<lparr> pc_hasMore = (pg_take input + 1 \<le> int (length (comments_eligible gpd st parent input))),
                  pc_comments = take (nat (pg_take input)) (comments_eligible gpd st parent input) \<rparr>)"
  by (simp add: comments_resolver_def Let_def comment_findMany_def comments_eligible_def
                lookahead_core[OF assms])

lemma set_paginate_subset: "set (paginate key d rows) \<subseteq> set rows"
proof -
  have e: "set (eligible key d rows) \<subseteq> set rows"
    unfolding eligible_def from_cursor_def
    by (auto split: option.splits dest: in_set_dropD set_dropWhileD)
  have u: "set (upto_cursor key c rows) \<subseteq> set rows" for c
    unfolding upto_cursor_def
    by (auto split: option.splits dest: set_takeWhileD in_set_takeD set_dropWhileD)
  show ?thesis
    unfolding paginate_def Let_def
    using e u[of "fd_cursor d"]
    by (auto dest!: in_set_dropD in_set_takeD)
qed

lemma set_js_slice0_subset: "set (js_slice0 xs e) \<subseteq> set xs"
  by (auto simp: js_slice0_def Let_def dest: in_set_takeD)

lemma set_order_desc: "set (order_desc f rows) = set rows"
  by (simp add: order_desc_def)

lemma post_findUnique_None: "(post_findUnique st i = None) = (i \<notin> post_id ` set (posts st))"
  by (auto simp: post_findUnique_def find_None_iff)

lemma has_dependents_iff:
  "has_dependents st i =
     ((\<exists>v \<in> set (postVotes st). vote_postId v = i) \<or> (\<exists>c \<in> set (comments st). comment_postId c = i))"
  by (simp add: has_dependents_def list_ex_iff)

lemma no_dependents_votes:
  "\<not> has_dependents st i \<Longrightarrow> filter (\<lambda>v. vote_postId v \<noteq> i) (postVotes st) = postVotes st"
  by (simp add: has_dependents_iff filter_id_conv)

lemma no_dependents_comments:
  "\<not> has_dependents st i \<Longrightarrow> filter (\<lambda>c. comment_postId c \<noteq> i) (comments st) = comments st"
  by (simp add: has_dependents_iff filter_id_conv)

lemma feed_fetch_scan_eq:
  "feed_fetch_scan scan gpd st session input =
     paginate post_id (gpd input)
       (order_desc post_createdAt (scan (filter (feed_where st session) (posts st))))"
proof (cases "truthy_userId session")
  case None
  then have "feed_where st session = (\<lambda>p. True)"
    by (simp add: feed_where_def fun_eq_iff)
  with None show ?thesis
    by (simp add: feed_fetch_scan_def post_findMany_scan_def Let_def)
next
  case (Some uid)
  then have "feed_where st session =
      (\<lambda>p. post_subName p \<in> set (map usub_subName (userSub_findMany st (\<lambda>s. usub_userId s = uid))))"
    by (auto simp: feed_where_def fun_eq_iff userSub_findMany_def)
  with Some show ?thesis
    by (simp add: feed_fetch_scan_def post_findMany_scan_def Let_def)
qed

lemma feed_scan_eq:
  "feed_scan scan gpd st req input =
     (st, Inr \<lparr> pp_hasMore = (int (length (feed_fetch_scan scan gpd st (req_session req) input)) = pg_take input + 1),
                pp_posts = js_slice0 (feed_fetch_scan scan gpd st (req_session req) input) (pg_take input) \<rparr>)"
  by (simp add: feed_scan_def getSession_optional Let_def)

lemma feed_scan_table_order: "feed_scan (\<lambda>rows. rows) gpd st req input = feed gpd st req input"
  by (simp add: feed_scan_eq feed_eq feed_fetch_scan_eq feed_fetch_eq)



section \<open>The sample store, evaluated\<close>

lemma sample_fetch_anonymous: "feed_fetch getPaginationData sample_store (req_session anonymous) (first_page 2) = [p3, p2, p1]"
  by code_simp

lemma sample_fetch_alice: "feed_fetch getPaginationData sample_store (req_session (as_user ''alice'')) (first_page 2) = [p3, p1]"
  by code_simp

lemma sample_comments_fetched: "length (comment_findMany sample_store (\<lambda>c. comment_postId c = post_id p1) (getPaginationData (first_page 2))) = 2"
  by code_simp

lemma sample_eligible_anonymous: "feed_eligible getPaginationData sample_store (req_session anonymous) (first_page 2) = [p3, p2, p1]"
  by code_simp

lemma sample_eligible_alice: "feed_eligible getPaginationData sample_store (req_session (as_user ''alice'')) (first_page 2) = [p3, p1]"
  by code_simp

lemma sample_comments_eligible: "length (comments_eligible getPaginationData sample_store p1 (first_page 2)) = 2"
  by code_simp

lemma sample_directive_take: "fd_take (getPaginationData (first_page 2)) = 3"
  by code_simp

lemma sample_take: "pg_take (first_page 2) = 2"
  by code_simp

lemma sample_alice_identity: "truthy_userId (req_session (as_user ''alice'')) = Some ''alice''"
  by code_simp

lemma sample_anonymous_identity: "truthy_userId (req_session anonymous) = None"
  by code_simp

lemma sample_alice_subs: "usub_subName ` {s \<in> set (userSubs sample_store). usub_userId s = ''alice''} = {''cats''}"
  by (auto simp: sample_store_def)

lemma sample_all_posts_page: "paginate post_id (getPaginationData (first_page 2)) (order_desc post_createdAt (posts sample_store)) = [p3, p2, p1]"
  by code_simp

lemma sample_anonymous_session: "req_session anonymous = None" by code_simp

lemma sample_bob_session: "req_session (as_user ''bob'') = Some \<lparr> userId = ''bob'' \<rparr>" by code_simp

lemma sample_alice_session: "req_session (as_user ''alice'') = Some \<lparr> userId = ''alice'' \<rparr>" by code_simp

lemma sample_find_p1: "post_findUnique sample_store ''p1'' = Some p1" by code_simp

lemma sample_no_zz: "''zz'' \<notin> post_id ` set (posts sample_store)" by (simp add: sample_store_def mk_post_def)

lemma sample_p1_creator: "post_creatorId p1 = ''alice''" by code_simp

lemma sample_carol_identity: "truthy_userId (req_session (as_user ''carol'')) = Some ''carol''"
  by code_simp

lemma sample_vote_values: "\<forall>v \<in> set (postVotes sample_store). vote_value v \<in> {- 1, 1}"
  by (simp add: sample_store_def)

lemma sample_vote_keys: "distinct (map (\<lambda>v. (vote_userId v, vote_postId v)) (postVotes sample_store))"
  by (simp add: sample_store_def)

lemma sample_carol_vote:
  "\<lparr> vote_userId = ''carol'', vote_postId = ''p1'', vote_value = - 1 \<rparr> \<in> set (postVotes sample_store)"
  by (simp add: sample_store_def)

lemma sample_alice_no_vote_p2:
  "\<not> (\<exists>v \<in> set (postVotes sample_store). vote_userId v = ''alice'' \<and> vote_postId v = post_id p2)"
  by (simp add: sample_store_def p2_def mk_post_def)

lemma sample_post_ids: "post_id p1 = ''p1''" "post_id p2 = ''p2''"
  by (simp_all add: p1_def p2_def mk_post_def)

lemma sample_validator: "title_required bad_input = Some ''title cannot be empty''"
  "title_required good_input = None"
  by (simp_all add: title_required_def bad_input_def good_input_def)

lemma sample_good_input_fields:
  "in_title good_input = ''hello''" "in_body good_input = ''world''" "in_image good_input = Undefined"
  by (simp_all add: good_input_def)

lemma sample_good_input:
  "in_title good_input = ''hello''" "in_body good_input = ''world''"
  "stored_image (in_image good_input) = None"
  by (simp_all add: good_input_def stored_image_def)

lemma sample_p3: "post_findUnique sample_store ''p3'' = Some p3" "post_creatorId p3 = ''alice''"
  by code_simp+

lemma sample_dependents: "has_dependents sample_store ''p1''" "\<not> has_dependents sample_store ''p3''"
  by code_simp+

lemma sample_without_p1:
  "filter (\<lambda>q. post_id q \<noteq> ''p1'') (posts sample_store) = [p2, p3]"
  "filter (\<lambda>v. vote_postId v \<noteq> ''p1'') (postVotes sample_store) = []"
  "filter (\<lambda>c. comment_postId c \<noteq> ''p1'') (comments sample_store) = []"
  by (simp_all add: sample_store_def p2_def p3_def mk_post_def)

lemma sample_without_p3:
  "filter (\<lambda>q. post_id q \<noteq> ''p3'') (posts sample_store) = [p1, p2]"
  "filter (\<lambda>v. vote_postId v \<noteq> ''p3'') (postVotes sample_store) = postVotes sample_store"
  "filter (\<lambda>c. comment_postId c \<noteq> ''p3'') (comments sample_store) = comments sample_store"
  by (simp_all add: sample_store_def p1_def p2_def mk_post_def)

lemma sample_writeLog: "writeLog sample_store = []"
  by (simp add: sample_store_def)

lemma sample_ids_subs:
  "''p1'' \<in> post_id ` set (posts sample_store)" "''p4'' \<notin> post_id ` set (posts sample_store)"
  "''cats'' \<in> set (subs sample_store)" "''birds'' \<notin> set (subs sample_store)"
  by (simp_all add: sample_store_def mk_post_def)

section \<open>Pagination: the lookahead row\<close>

text \<open>
  C1. For \<open>feed\<close> and for the \<open>comments\<close> field, with a positive page size \<open>take\<close> and
  whatever fetch directive the pagination helper returns: \<open>hasMore\<close> is true exactly when
  the fetch returned \<open>take + 1\<close> rows, and the page is the first \<open>take\<close> fetched rows.
  When the directive asks for \<open>take + 1\<close> rows (the helper as the spec describes it):
  with at least \<open>take + 1\<close> eligible rows (rows that match the resolver's filter, in feed
  order, after the cursor) the page has exactly \<open>take\<close> rows and \<open>hasMore\<close> is true, and
  with exactly \<open>take\<close> eligible rows \<open>hasMore\<close> is false.
\<close>

theorem pagination_lookahead:
  assumes "0 < pg_take input"
  shows "feed gpd st req input =
           (st, Inr \<lparr> pp_hasMore = (int (length (feed_fetch gpd st (req_session req) input)) = pg_take input + 1),
                      pp_posts = take (nat (pg_take input)) (feed_fetch gpd st (req_session req) input) \<rparr>)
       \<and> comments_resolver gpd st parent input =
           (st, \<lparr> pc_hasMore = (int (length (comment_findMany st (\<lambda>c. comment_postId c = post_id parent) (gpd input))) = pg_take input + 1),
                  pc_comments = take (nat (pg_take input)) (comment_findMany st (\<lambda>c. comment_postId c = post_id parent) (gpd input)) \<rparr>)
       \<and> (fd_take (gpd input) = pg_take input + 1 \<longrightarrow>
            (pg_take input + 1 \<le> int (length (feed_eligible gpd st (req_session req) input)) \<longrightarrow>
               (\<exists>r. feed gpd st req input = (st, Inr r) \<and> pp_hasMore r
                    \<and> int (length (pp_posts r)) = pg_take input))
          \<and> (int (length (feed_eligible gpd st (req_session req) input)) = pg_take input \<longrightarrow>
               (\<exists>r. feed gpd st req input = (st, Inr r) \<and> \<not> pp_hasMore r
                    \<and> int (length (pp_posts r)) = pg_take input))
          \<and> (pg_take input + 1 \<le> int (length (comments_eligible gpd st parent input)) \<longrightarrow>
               (\<exists>r. comments_resolver gpd st parent input = (st, r) \<and> pc_hasMore r
                    \<and> int (length (pc_comments r)) = pg_take input))
          \<and> (int (length (comments_eligible gpd st parent input)) = pg_take input \<longrightarrow>
               (\<exists>r. comments_resolver gpd st parent input = (st, r) \<and> \<not> pc_hasMore r
                    \<and> int (length (pc_comments r)) = pg_take input)))"
proof -
  have t0: "0 \<le> pg_take input" using assms by simp
  have a: "feed gpd st req input =
           (st, Inr \<lparr> pp_hasMore = (int (length (feed_fetch gpd st (req_session req) input)) = pg_take input + 1),
                      pp_posts = take (nat (pg_take input)) (feed_fetch gpd st (req_session req) input) \<rparr>)"
    by (simp add: feed_eq js_slice0_pos[OF t0])
  have b: "comments_resolver gpd st parent input =
           (st, \<lparr> pc_hasMore = (int (length (comment_findMany st (\<lambda>c. comment_postId c = post_id parent) (gpd input))) = pg_take input + 1),
                  pc_comments = take (nat (pg_take input)) (comment_findMany st (\<lambda>c. comment_postId c = post_id parent) (gpd input)) \<rparr>)"
    by (simp add: comments_resolver_def Let_def js_slice0_pos[OF t0])
  have c: "(pg_take input + 1 \<le> int (length (feed_eligible gpd st (req_session req) input)) \<longrightarrow>
               (\<exists>r. feed gpd st req input = (st, Inr r) \<and> pp_hasMore r
                    \<and> int (length (pp_posts r)) = pg_take input))
          \<and> (int (length (feed_eligible gpd st (req_session req) input)) = pg_take input \<longrightarrow>
               (\<exists>r. feed gpd st req input = (st, Inr r) \<and> \<not> pp_hasMore r
                    \<and> int (length (pp_posts r)) = pg_take input))"
    if h: "fd_take (gpd input) = pg_take input + 1"
    using assms by (auto simp add: feed_lookahead_eligible[where gpd=gpd, OF assms h] min_def)
  have d: "(pg_take input + 1 \<le> int (length (comments_eligible gpd st parent input)) \<longrightarrow>
               (\<exists>r. comments_resolver gpd st parent input = (st, r) \<and> pc_hasMore r
                    \<and> int (length (pc_comments r)) = pg_take input))
          \<and> (int (length (comments_eligible gpd st parent input)) = pg_take input \<longrightarrow>
               (\<exists>r. comments_resolver gpd st parent input = (st, r) \<and> \<not> pc_hasMore r
                    \<and> int (length (pc_comments r)) = pg_take input))"
    if h: "fd_take (gpd input) = pg_take input + 1"
    using assms by (auto simp add: comments_lookahead_eligible[where gpd=gpd, OF assms h] min_def)
  from a b c d show ?thesis by blast
qed

theorem pagination_lookahead_witness:
  "(0::int) < pg_take (first_page 2)
   \<and> fd_take (getPaginationData (first_page 2)) = pg_take (first_page 2) + 1
   \<and> pg_take (first_page 2) + 1
        \<le> int (length (feed_eligible getPaginationData sample_store (req_session anonymous) (first_page 2)))
   \<and> int (length (feed_eligible getPaginationData sample_store (req_session (as_user ''alice'')) (first_page 2)))
        = pg_take (first_page 2)
   \<and> int (length (comments_eligible getPaginationData sample_store p1 (first_page 2))) = pg_take (first_page 2)
   \<and> feed getPaginationData sample_store anonymous (first_page 2) =
       (sample_store, Inr \<lparr> pp_hasMore = True, pp_posts = [p3, p2] \<rparr>)
   \<and> feed getPaginationData sample_store (as_user ''alice'') (first_page 2) =
       (sample_store, Inr \<lparr> pp_hasMore = False, pp_posts = [p3, p1] \<rparr>)
   \<and> (\<exists>r. comments_resolver getPaginationData sample_store p1 (first_page 2) = (sample_store, r)
          \<and> \<not> pc_hasMore r \<and> int (length (pc_comments r)) = 2)"
proof -
  have t2: "(0::int) < pg_take (first_page 2)"
    by (simp add: sample_take)
  show ?thesis
    using pagination_lookahead[OF t2, of getPaginationData sample_store anonymous p1]
          pagination_lookahead[OF t2, of getPaginationData sample_store "as_user ''alice''" p1]
    by (simp add: sample_fetch_anonymous sample_fetch_alice sample_comments_fetched sample_eligible_anonymous sample_eligible_alice sample_comments_eligible sample_directive_take sample_take)
qed

section \<open>Vote aggregate\<close>

lemma foldl_add_vote_value:
  "foldl (\<lambda>prev curr. prev + vote_value curr) a vs = a + sum_list (map vote_value vs)"
  by (induction vs arbitrary: a) simp_all

text \<open>
  C2. For every store and post, the \<^verbatim>\<open>votes\<close> field is the sum of the values of the
  stored votes whose \<open>postId\<close> is the post's id, which is 0 when the post has no vote;
  the resolver reads the vote rows of the store it is given and leaves the store as it
  is (a post row has no aggregate field).
\<close>

theorem votes_is_sum_of_vote_rows:
  "snd (votes st p) = sum_list (map vote_value (filter (\<lambda>v. vote_postId v = post_id p) (postVotes st)))
   \<and> fst (votes st p) = st
   \<and> (filter (\<lambda>v. vote_postId v = post_id p) (postVotes st) = [] \<longrightarrow> snd (votes st p) = 0)"
  by (simp add: votes_def postVote_findMany_def foldl_add_vote_value)

theorem votes_is_sum_of_vote_rows_witness:
  "snd (votes sample_store (mk_post ''p1'' ''alice'' ''cats'' 10)) = 1
   \<and> filter (\<lambda>v. vote_postId v = ''p2'') (postVotes sample_store) = []
   \<and> snd (votes sample_store (mk_post ''p2'' ''bob'' ''dogs'' 20)) = 0"
  using votes_is_sum_of_vote_rows [of sample_store "mk_post ''p1'' ''alice'' ''cats'' 10"]
        votes_is_sum_of_vote_rows [of sample_store "mk_post ''p2'' ''bob'' ''dogs'' 20"]
  by (simp add: sample_store_def mk_post_def)

section \<open>Feed and subscriptions\<close>

text \<open>
  C3. When the session carries a user id (one that the condition \<^verbatim>\<open>session?.userId\<close>
  accepts, so not the empty string), every post of the returned page is a stored post
  whose \<open>subName\<close> is the sub name of one of that user's subscription rows.  When the
  session is anonymous, the rows fetched are a page of all stored posts, newest first,
  with no restriction by community.  Both hold for every pagination input and every
  fetch directive.
\<close>

theorem feed_subscription_filter:
  "(truthy_userId (req_session req) = Some uid \<longrightarrow>
      (\<exists>r. feed gpd st req input = (st, Inr r) \<and>
           (\<forall>p \<in> set (pp_posts r).
              p \<in> set (posts st) \<and>
              post_subName p \<in> usub_subName ` {s \<in> set (userSubs st). usub_userId s = uid})))
   \<and> (truthy_userId (req_session req) = None \<longrightarrow>
        feed_fetch gpd st (req_session req) input
          = paginate post_id (gpd input) (order_desc post_createdAt (posts st))
      \<and> feed gpd st req input =
          (st, Inr \<lparr> pp_hasMore = (int (length (paginate post_id (gpd input) (order_desc post_createdAt (posts st)))) = pg_take input + 1),
                     pp_posts = js_slice0 (paginate post_id (gpd input) (order_desc post_createdAt (posts st))) (pg_take input) \<rparr>))"
proof (intro conjI impI)
  assume u: "truthy_userId (req_session req) = Some uid"
  let ?F = "feed_fetch gpd st (req_session req) input"
  have "set ?F \<subseteq> set (filter (feed_where st (req_session req)) (posts st))"
    using set_paginate_subset[of post_id "gpd input"
            "order_desc post_createdAt (filter (feed_where st (req_session req)) (posts st))"]
    by (simp only: feed_fetch_eq set_order_desc)
  then have "\<forall>p \<in> set (js_slice0 ?F (pg_take input)).
               p \<in> set (posts st) \<and>
               post_subName p \<in> usub_subName ` {s \<in> set (userSubs st). usub_userId s = uid}"
    using set_js_slice0_subset[of ?F "pg_take input"] u
    by (auto simp: feed_where_def)
  then show "\<exists>r. feed gpd st req input = (st, Inr r) \<and>
           (\<forall>p \<in> set (pp_posts r).
              p \<in> set (posts st) \<and>
              post_subName p \<in> usub_subName ` {s \<in> set (userSubs st). usub_userId s = uid})"
    by (simp add: feed_eq)
next
  assume a: "truthy_userId (req_session req) = None"
  then show f: "feed_fetch gpd st (req_session req) input
          = paginate post_id (gpd input) (order_desc post_createdAt (posts st))"
    by (simp add: feed_fetch_def post_findMany_def Let_def)
  show "feed gpd st req input =
          (st, Inr \<lparr> pp_hasMore = (int (length (paginate post_id (gpd input) (order_desc post_createdAt (posts st)))) = pg_take input + 1),
                     pp_posts = js_slice0 (paginate post_id (gpd input) (order_desc post_createdAt (posts st))) (pg_take input) \<rparr>)"
    by (simp add: feed_eq f)
qed

theorem feed_subscription_filter_witness:
  "truthy_userId (req_session (as_user ''alice'')) = Some ''alice''
   \<and> (\<exists>r. feed getPaginationData sample_store (as_user ''alice'') (first_page 2) = (sample_store, Inr r)
          \<and> (\<forall>p \<in> set (pp_posts r). p \<in> set (posts sample_store) \<and> post_subName p \<in> {''cats''}))
   \<and> truthy_userId (req_session anonymous) = None
   \<and> feed_fetch getPaginationData sample_store (req_session anonymous) (first_page 2) = [p3, p2, p1]"
  using feed_subscription_filter[of "as_user ''alice''" "''alice''" getPaginationData sample_store "first_page 2"]
        feed_subscription_filter[of anonymous "''alice''" getPaginationData sample_store "first_page 2"]
  by (simp add: sample_alice_identity sample_anonymous_identity sample_alice_subs sample_all_posts_page)

section \<open>Order of the checks in \<open>editPost\<close> and \<open>deletePost\<close>\<close>

text \<open>
  C4. \<open>editPost\<close> and \<open>deletePost\<close> check in this order and stop at the first failure:
  without a session the fault is \<open>Unauthenticated\<close>; with a session, when no post has the
  given id the fault is "post not found"; when the post found was not created by the
  session's user the fault is "cannot update post", whatever the payload is.  Only
  otherwise is the write sent to the store.  The update gives the post the new title,
  body and image and the current time as \<open>updatedAt\<close>.  The delete removes the post, and
  with it the votes and comments that refer to it where the schema cascades; where the
  schema restricts, a post that votes or comments refer to is not deleted, and the
  store's refusal is the fault of the call.  Every fault leaves the store as it was.
\<close>

theorem edit_delete_check_order:
  "(req_session req = None \<longrightarrow>
      editPost st req now i inp = (st, Inl Unauthenticated)
    \<and> deletePost od st req i = (st, Inl Unauthenticated))
   \<and> (req_session req = Some s \<longrightarrow>
        (i \<notin> post_id ` set (posts st) \<longrightarrow>
           editPost st req now i inp = (st, Inl (ApolloError ''post not found''))
         \<and> deletePost od st req i = (st, Inl (ApolloError ''post not found'')))
      \<and> (post_findUnique st i = Some p \<longrightarrow>
           (post_creatorId p \<noteq> userId s \<longrightarrow>
              editPost st req now i inp = (st, Inl (ApolloError ''cannot update post''))
            \<and> deletePost od st req i = (st, Inl (ApolloError ''cannot update post'')))
         \<and> (post_creatorId p = userId s \<longrightarrow>
              editPost st req now i inp =
                (st\<lparr> posts := map (\<lambda>q. if post_id q = i
                                       then apply_update \<lparr> ud_title = in_title inp, ud_body = in_body inp,
                                                           ud_image = in_image inp, ud_updatedAt = now \<rparr> q
                                       else q) (posts st),
                      writeLog := writeLog st @ [Updated i] \<rparr>,
                 Inr (p\<lparr> post_title := in_title inp, post_body := in_body inp,
                         post_image := (case in_image inp of Undefined \<Rightarrow> post_image p | Null \<Rightarrow> None | Value x \<Rightarrow> Some x),
                         post_updatedAt := now \<rparr>))
            \<and> deletePost Cascade st req i =
                (st\<lparr> posts := filter (\<lambda>q. post_id q \<noteq> i) (posts st),
                      postVotes := filter (\<lambda>v. vote_postId v \<noteq> i) (postVotes st),
                      comments := filter (\<lambda>c. comment_postId c \<noteq> i) (comments st),
                      writeLog := writeLog st @ [Deleted i] \<rparr>, Inr True)
            \<and> (has_dependents st i \<longrightarrow>
                 deletePost Restrict st req i = (st, Inl (StoreFault ForeignKeyConstraint)))
            \<and> (\<not> has_dependents st i \<longrightarrow>
                 deletePost Restrict st req i =
                   (st\<lparr> posts := filter (\<lambda>q. post_id q \<noteq> i) (posts st),
                         writeLog := writeLog st @ [Deleted i] \<rparr>, Inr True)))))"
proof (intro conjI impI)
  assume "req_session req = None"
  then show "editPost st req now i inp = (st, Inl Unauthenticated)"
    and "deletePost od st req i = (st, Inl Unauthenticated)"
    by (simp_all add: editPost_def deletePost_def getSession_def)
next
  assume s: "req_session req = Some s" and "i \<notin> post_id ` set (posts st)"
  then have "post_findUnique st i = None" by (simp add: post_findUnique_None)
  with s show "editPost st req now i inp = (st, Inl (ApolloError ''post not found''))"
    and "deletePost od st req i = (st, Inl (ApolloError ''post not found''))"
    by (simp_all add: editPost_def deletePost_def getSession_def)
next
  assume "req_session req = Some s" "post_findUnique st i = Some p" "post_creatorId p \<noteq> userId s"
  then show "editPost st req now i inp = (st, Inl (ApolloError ''cannot update post''))"
    and "deletePost od st req i = (st, Inl (ApolloError ''cannot update post''))"
    by (simp_all add: editPost_def deletePost_def getSession_def)
next
  assume a: "req_session req = Some s" "post_findUnique st i = Some p" "post_creatorId p = userId s"
  then show "editPost st req now i inp =
                (st\<lparr> posts := map (\<lambda>q. if post_id q = i
                                       then apply_update \<lparr> ud_title = in_title inp, ud_body = in_body inp,
                                                           ud_image = in_image inp, ud_updatedAt = now \<rparr> q
                                       else q) (posts st),
                      writeLog := writeLog st @ [Updated i] \<rparr>,
                 Inr (p\<lparr> post_title := in_title inp, post_body := in_body inp,
                         post_image := (case in_image inp of Undefined \<Rightarrow> post_image p | Null \<Rightarrow> None | Value x \<Rightarrow> Some x),
                         post_updatedAt := now \<rparr>))"
    by (simp add: editPost_def getSession_def post_update_def apply_update_def)
  from a show "deletePost Cascade st req i =
                (st\<lparr> posts := filter (\<lambda>q. post_id q \<noteq> i) (posts st),
                      postVotes := filter (\<lambda>v. vote_postId v \<noteq> i) (postVotes st),
                      comments := filter (\<lambda>c. comment_postId c \<noteq> i) (comments st),
                      writeLog := writeLog st @ [Deleted i] \<rparr>, Inr True)"
    by (simp add: deletePost_def getSession_def post_delete_def)
  from a show "deletePost Restrict st req i = (st, Inl (StoreFault ForeignKeyConstraint))"
    if "has_dependents st i"
    using that by (simp add: deletePost_def getSession_def post_delete_def)
  from a show "deletePost Restrict st req i =
                   (st\<lparr> posts := filter (\<lambda>q. post_id q \<noteq> i) (posts st),
                         writeLog := writeLog st @ [Deleted i] \<rparr>, Inr True)"
    if "\<not> has_dependents st i"
    using that
    by (simp add: deletePost_def getSession_def post_delete_def no_dependents_votes no_dependents_comments)
qed

theorem edit_delete_check_order_witness:
  "editPost sample_store anonymous 99 ''p1'' bad_input = (sample_store, Inl Unauthenticated)
   \<and> deletePost Restrict sample_store anonymous ''p1'' = (sample_store, Inl Unauthenticated)
   \<and> editPost sample_store (as_user ''bob'') 99 ''zz'' bad_input = (sample_store, Inl (ApolloError ''post not found''))
   \<and> deletePost Restrict sample_store (as_user ''bob'') ''zz'' = (sample_store, Inl (ApolloError ''post not found''))
   \<and> editPost sample_store (as_user ''bob'') 99 ''p1'' bad_input = (sample_store, Inl (ApolloError ''cannot update post''))
   \<and> deletePost Cascade sample_store (as_user ''bob'') ''p1'' = (sample_store, Inl (ApolloError ''cannot update post''))
   \<and> snd (editPost sample_store (as_user ''alice'') 99 ''p1'' good_input) =
        Inr (p1\<lparr> post_title := ''hello'', post_body := ''world'', post_updatedAt := 99 \<rparr>)
   \<and> has_dependents sample_store ''p1''
   \<and> deletePost Restrict sample_store (as_user ''alice'') ''p1'' =
        (sample_store, Inl (StoreFault ForeignKeyConstraint))
   \<and> deletePost Cascade sample_store (as_user ''alice'') ''p1'' =
        (sample_store\<lparr> posts := [p2, p3], postVotes := [], comments := [], writeLog := [Deleted ''p1''] \<rparr>,
         Inr True)
   \<and> deletePost Restrict sample_store (as_user ''alice'') ''p3'' =
        (sample_store\<lparr> posts := [p1, p2], writeLog := [Deleted ''p3''] \<rparr>, Inr True)"
  using edit_delete_check_order[where req=anonymous and st=sample_store and now=99 and i="''p1''"
          and inp=bad_input and s="\<lparr> userId = ''bob'' \<rparr>" and p=p1 and od=Restrict]
        edit_delete_check_order[where req="as_user ''bob''" and st=sample_store and now=99 and i="''zz''"
          and inp=bad_input and s="\<lparr> userId = ''bob'' \<rparr>" and p=p1 and od=Restrict]
        edit_delete_check_order[where req="as_user ''bob''" and st=sample_store and now=99 and i="''p1''"
          and inp=bad_input and s="\<lparr> userId = ''bob'' \<rparr>" and p=p1 and od=Cascade]
        edit_delete_check_order[where req="as_user ''alice''" and st=sample_store and now=99 and i="''p1''"
          and inp=good_input and s="\<lparr> userId = ''alice'' \<rparr>" and p=p1 and od=Restrict]
        edit_delete_check_order[where req="as_user ''alice''" and st=sample_store and now=99 and i="''p3''"
          and inp=good_input and s="\<lparr> userId = ''alice'' \<rparr>" and p=p3 and od=Restrict]
  by (simp add: sample_anonymous_session sample_bob_session sample_alice_session sample_find_p1 sample_no_zz
                sample_p1_creator sample_p3 sample_dependents sample_without_p1 sample_without_p3
                sample_writeLog sample_good_input_fields)

section \<open>The requesting user's own vote\<close>

lemma voteStatus_anonymous:
  "truthy_userId (req_session req) = None \<Longrightarrow> voteStatus st req p = (st, Inr 0)"
  by (simp add: voteStatus_def getSession_optional)

lemma voteStatus_user:
  "truthy_userId (req_session req) = Some uid \<Longrightarrow>
   voteStatus st req p =
     (st, Inr (case postVote_findUnique st uid (post_id p) of None \<Rightarrow> 0 | Some v \<Rightarrow> vote_value v))"
  by (simp add: voteStatus_def getSession_optional split: option.splits)

lemma postVote_findUnique_None:
  "(postVote_findUnique st uid pid = None) =
     (\<not> (\<exists>v \<in> set (postVotes st). vote_userId v = uid \<and> vote_postId v = pid))"
  by (auto simp: postVote_findUnique_def find_None_iff)

lemma postVote_findUnique_Some:
  "postVote_findUnique st uid pid = Some v \<Longrightarrow>
     v \<in> set (postVotes st) \<and> vote_userId v = uid \<and> vote_postId v = pid"
  by (auto simp: postVote_findUnique_def find_Some_iff)

lemma distinct_map_key_eq:
  "distinct (map f xs) \<Longrightarrow> x \<in> set xs \<Longrightarrow> y \<in> set xs \<Longrightarrow> f x = f y \<Longrightarrow> x = y"
  by (meson distinct_map inj_onD)

lemma postVote_findUnique_unique:
  assumes d: "distinct (map (\<lambda>v. (vote_userId v, vote_postId v)) (postVotes st))"
    and v: "v \<in> set (postVotes st)" "vote_userId v = uid" "vote_postId v = pid"
  shows "postVote_findUnique st uid pid = Some v"
proof (cases "postVote_findUnique st uid pid")
  case None
  with v show ?thesis unfolding postVote_findUnique_None by blast
next
  case (Some w)
  from postVote_findUnique_Some[OF Some] v
  have win: "w \<in> set (postVotes st)"
    and weq: "(vote_userId w, vote_postId w) = (vote_userId v, vote_postId v)" by simp_all
  from d win v(1) weq have "w = v" by (rule distinct_map_key_eq)
  with Some show ?thesis by simp
qed

lemma voteStatus_result:
  "voteStatus st req p =
     (st, Inr (case truthy_userId (req_session req) of
                 None \<Rightarrow> 0
               | Some uid \<Rightarrow> (case postVote_findUnique st uid (post_id p) of
                                None \<Rightarrow> 0 | Some v \<Rightarrow> vote_value v)))"
  by (cases "truthy_userId (req_session req)") (simp_all add: voteStatus_anonymous voteStatus_user)

lemma voteStatus_in_range:
  assumes vals: "\<forall>v \<in> set (postVotes st). vote_value v \<in> {- 1, 1}"
  shows "snd (voteStatus st req p) \<in> {Inr (- 1), Inr 0, Inr 1}"
proof (cases "truthy_userId (req_session req)")
  case None
  then show ?thesis by (simp add: voteStatus_result)
next
  case u: (Some uid)
  show ?thesis
  proof (cases "postVote_findUnique st uid (post_id p)")
    case None
    with u show ?thesis by (simp add: voteStatus_result)
  next
    case (Some w)
    from postVote_findUnique_Some[OF Some] vals have "vote_value w = - 1 \<or> vote_value w = 1"
      by blast
    with u Some show ?thesis by (auto simp add: voteStatus_result)
  qed
qed

text \<open>
  C5. Provided every stored vote value is -1 or +1, \<open>voteStatus\<close> returns -1, 0 or 1 and
  does not change the store.  It returns 0 for an anonymous request and when no vote row
  has the key (user id, post id); when the keys of the vote rows are pairwise different
  (the store's uniqueness constraint) it returns the value of the row with that key.
\<close>

theorem voteStatus_range:
  assumes vals: "\<forall>v \<in> set (postVotes st). vote_value v \<in> {- 1, 1}"
  shows "fst (voteStatus st req p) = st
       \<and> snd (voteStatus st req p) \<in> {Inr (- 1), Inr 0, Inr 1}
       \<and> (truthy_userId (req_session req) = None \<longrightarrow> snd (voteStatus st req p) = Inr 0)
       \<and> (truthy_userId (req_session req) = Some uid \<longrightarrow>
            (\<not> (\<exists>v \<in> set (postVotes st). vote_userId v = uid \<and> vote_postId v = post_id p) \<longrightarrow>
               snd (voteStatus st req p) = Inr 0)
          \<and> (distinct (map (\<lambda>v. (vote_userId v, vote_postId v)) (postVotes st)) \<longrightarrow>
               (\<forall>v \<in> set (postVotes st). vote_userId v = uid \<and> vote_postId v = post_id p \<longrightarrow>
                  snd (voteStatus st req p) = Inr (vote_value v))))"
proof (intro conjI impI ballI)
  show "fst (voteStatus st req p) = st" by (simp add: voteStatus_result)
  show "snd (voteStatus st req p) \<in> {Inr (- 1), Inr 0, Inr 1}"
    by (rule voteStatus_in_range[OF vals])
  show "snd (voteStatus st req p) = Inr 0" if "truthy_userId (req_session req) = None"
    using that by (simp add: voteStatus_result)
  show "snd (voteStatus st req p) = Inr 0"
    if "truthy_userId (req_session req) = Some uid"
       "\<not> (\<exists>v \<in> set (postVotes st). vote_userId v = uid \<and> vote_postId v = post_id p)"
  proof -
    from that(2) have "postVote_findUnique st uid (post_id p) = None"
      unfolding postVote_findUnique_None .
    with that(1) show ?thesis by (simp add: voteStatus_result)
  qed
  show "snd (voteStatus st req p) = Inr (vote_value v)"
    if "truthy_userId (req_session req) = Some uid"
       "distinct (map (\<lambda>v. (vote_userId v, vote_postId v)) (postVotes st))"
       "v \<in> set (postVotes st)" "vote_userId v = uid \<and> vote_postId v = post_id p" for v
    using that(1) postVote_findUnique_unique[OF that(2) that(3), of uid "post_id p"] that(4)
    by (simp add: voteStatus_result)
qed

theorem voteStatus_range_witness:
  "vote_value ` set (postVotes sample_store) \<subseteq> {- 1, 1}
   \<and> truthy_userId (req_session (as_user ''carol'')) = Some ''carol''
   \<and> distinct (map (\<lambda>v. (vote_userId v, vote_postId v)) (postVotes sample_store))
   \<and> snd (voteStatus sample_store (as_user ''carol'') p1) = Inr (- 1)
   \<and> truthy_userId (req_session anonymous) = None
   \<and> snd (voteStatus sample_store anonymous p1) = Inr 0
   \<and> \<not> (\<exists>v \<in> set (postVotes sample_store). vote_userId v = ''alice'' \<and> vote_postId v = post_id p2)
   \<and> snd (voteStatus sample_store (as_user ''alice'') p2) = Inr 0"
proof -
  note r = voteStatus_range[OF sample_vote_values]
  from r[of "as_user ''carol''" p1 "''carol''"] sample_carol_identity sample_vote_keys sample_carol_vote
  have a: "snd (voteStatus sample_store (as_user ''carol'') p1) = Inr (- 1)"
    by (auto simp: sample_post_ids)
  from r[of anonymous p1 "''carol''"] sample_anonymous_identity
  have b: "snd (voteStatus sample_store anonymous p1) = Inr 0"
    by simp
  from r[of "as_user ''alice''" p2 "''alice''"] sample_alice_identity sample_alice_no_vote_p2
  have c: "snd (voteStatus sample_store (as_user ''alice'') p2) = Inr 0"
    by simp
  from a b c sample_vote_values sample_carol_identity sample_vote_keys sample_anonymous_identity
       sample_alice_no_vote_p2
  show ?thesis by auto
qed

section \<open>Order of the checks in \<open>createPost\<close>\<close>

text \<open>
  C6. \<open>createPost\<close> checks in this order and stops at the first failure: without a
  session the fault is \<open>Unauthenticated\<close>; with a session, when the validator returns a
  message (not the empty string) the fault is the input validation fault with that
  message; when the validator accepts and the store refuses the create (the id is taken
  or the community does not exist) the fault is "sub not found", whichever the store's
  error was; otherwise the created post is returned and appended to the store.
\<close>

theorem createPost_check_order:
  "(req_session req = None \<longrightarrow>
      createPost vp st req newId now sub inp = (st, Inl Unauthenticated))
   \<and> (req_session req = Some s \<longrightarrow>
        (vp inp = Some msg \<and> msg \<noteq> [] \<longrightarrow>
           createPost vp st req newId now sub inp = (st, Inl (UserInputError msg)))
      \<and> (vp inp = None \<or> vp inp = Some [] \<longrightarrow>
           (newId \<in> post_id ` set (posts st) \<or> sub \<notin> set (subs st) \<longrightarrow>
              createPost vp st req newId now sub inp = (st, Inl (ApolloError ''sub not found'')))
         \<and> (newId \<notin> post_id ` set (posts st) \<and> sub \<in> set (subs st) \<longrightarrow>
              createPost vp st req newId now sub inp =
                (st\<lparr> posts := posts st @
                        [\<lparr> post_id = newId, post_title = in_title inp, post_body = in_body inp,
                           post_image = stored_image (in_image inp), post_creatorId = userId s,
                           post_subName = sub, post_createdAt = now, post_updatedAt = now \<rparr>],
                      writeLog := writeLog st @ [Created newId] \<rparr>,
                 Inr \<lparr> post_id = newId, post_title = in_title inp, post_body = in_body inp,
                       post_image = stored_image (in_image inp), post_creatorId = userId s,
                       post_subName = sub, post_createdAt = now, post_updatedAt = now \<rparr>))))"
  by (auto simp: createPost_def getSession_def truthy_string_def post_create_def Let_def)

theorem createPost_check_order_witness:
  "createPost title_required sample_store anonymous ''p4'' 99 ''cats'' good_input
     = (sample_store, Inl Unauthenticated)
   \<and> createPost title_required sample_store (as_user ''alice'') ''p4'' 99 ''cats'' bad_input
     = (sample_store, Inl (UserInputError ''title cannot be empty''))
   \<and> createPost title_required sample_store (as_user ''alice'') ''p4'' 99 ''birds'' good_input
     = (sample_store, Inl (ApolloError ''sub not found''))
   \<and> createPost title_required sample_store (as_user ''alice'') ''p1'' 99 ''cats'' good_input
     = (sample_store, Inl (ApolloError ''sub not found''))
   \<and> snd (createPost title_required sample_store (as_user ''alice'') ''p4'' 99 ''cats'' good_input)
     = Inr \<lparr> post_id = ''p4'', post_title = ''hello'', post_body = ''world'', post_image = None,
             post_creatorId = ''alice'', post_subName = ''cats'', post_createdAt = 99,
             post_updatedAt = 99 \<rparr>"
  using createPost_check_order[of anonymous title_required sample_store "''p4''" 99 "''cats''" good_input
          "\<lparr> userId = ''alice'' \<rparr>" "''title cannot be empty''"]
        createPost_check_order[of "as_user ''alice''" title_required sample_store "''p4''" 99 "''cats''" bad_input
          "\<lparr> userId = ''alice'' \<rparr>" "''title cannot be empty''"]
        createPost_check_order[of "as_user ''alice''" title_required sample_store "''p4''" 99 "''birds''" good_input
          "\<lparr> userId = ''alice'' \<rparr>" "''title cannot be empty''"]
        createPost_check_order[of "as_user ''alice''" title_required sample_store "''p1''" 99 "''cats''" good_input
          "\<lparr> userId = ''alice'' \<rparr>" "''title cannot be empty''"]
        createPost_check_order[of "as_user ''alice''" title_required sample_store "''p4''" 99 "''cats''" good_input
          "\<lparr> userId = ''alice'' \<rparr>" "''title cannot be empty''"]
  by (simp add: sample_anonymous_session sample_alice_session sample_validator sample_ids_subs
                sample_good_input)

section \<open>Writes of the mutations\<close>

text \<open>
  C7. Each of \<open>createPost\<close>, \<open>editPost\<close> and \<open>deletePost\<close> either ends with a fault and
  returns the store it was given, or succeeds and returns that store with exactly one
  write applied: one entry appended to the trace of writes, the post table changed by
  the one create, update or delete, and every other table as it was, but for the votes
  and comments of a deleted post, which the one delete removes with it (none exist when
  a restricting schema lets the delete through).
\<close>

theorem mutations_one_write_or_none:
  "(case snd (createPost vp st req newId now sub inp) of
      Inl f \<Rightarrow> fst (createPost vp st req newId now sub inp) = st
    | Inr post \<Rightarrow>
        fst (createPost vp st req newId now sub inp) =
          st\<lparr> posts := posts st @ [post], writeLog := writeLog st @ [Created (post_id post)] \<rparr>)
   \<and> (case snd (editPost st req now i inp) of
        Inl f \<Rightarrow> fst (editPost st req now i inp) = st
      | Inr post \<Rightarrow>
          fst (editPost st req now i inp) =
            st\<lparr> posts := map (\<lambda>q. if post_id q = i
                                   then apply_update \<lparr> ud_title = in_title inp, ud_body = in_body inp,
                                                       ud_image = in_image inp, ud_updatedAt = now \<rparr> q
                                   else q) (posts st),
                writeLog := writeLog st @ [Updated i] \<rparr>)
   \<and> (case snd (deletePost od st req i) of
        Inl f \<Rightarrow> fst (deletePost od st req i) = st
      | Inr ok \<Rightarrow>
          fst (deletePost od st req i) =
            st\<lparr> posts := filter (\<lambda>q. post_id q \<noteq> i) (posts st),
                postVotes := filter (\<lambda>v. vote_postId v \<noteq> i) (postVotes st),
                comments := filter (\<lambda>c. comment_postId c \<noteq> i) (comments st),
                writeLog := writeLog st @ [Deleted i] \<rparr>
        \<and> (od = Restrict \<longrightarrow>
             postVotes (fst (deletePost od st req i)) = postVotes st
           \<and> comments (fst (deletePost od st req i)) = comments st))"
proof (intro conjI)
  show "case snd (createPost vp st req newId now sub inp) of
      Inl f \<Rightarrow> fst (createPost vp st req newId now sub inp) = st
    | Inr post \<Rightarrow>
        fst (createPost vp st req newId now sub inp) =
          st\<lparr> posts := posts st @ [post], writeLog := writeLog st @ [Created (post_id post)] \<rparr>"
    by (simp add: createPost_def getSession_def post_create_def Let_def split: option.splits sum.splits)
  show "case snd (editPost st req now i inp) of
        Inl f \<Rightarrow> fst (editPost st req now i inp) = st
      | Inr post \<Rightarrow>
          fst (editPost st req now i inp) =
            st\<lparr> posts := map (\<lambda>q. if post_id q = i
                                   then apply_update \<lparr> ud_title = in_title inp, ud_body = in_body inp,
                                                       ud_image = in_image inp, ud_updatedAt = now \<rparr> q
                                   else q) (posts st),
                writeLog := writeLog st @ [Updated i] \<rparr>"
    by (simp add: editPost_def getSession_def post_update_def split: option.splits sum.splits)
  show "case snd (deletePost od st req i) of
        Inl f \<Rightarrow> fst (deletePost od st req i) = st
      | Inr ok \<Rightarrow>
          fst (deletePost od st req i) =
            st\<lparr> posts := filter (\<lambda>q. post_id q \<noteq> i) (posts st),
                postVotes := filter (\<lambda>v. vote_postId v \<noteq> i) (postVotes st),
                comments := filter (\<lambda>c. comment_postId c \<noteq> i) (comments st),
                writeLog := writeLog st @ [Deleted i] \<rparr>
        \<and> (od = Restrict \<longrightarrow>
             postVotes (fst (deletePost od st req i)) = postVotes st
           \<and> comments (fst (deletePost od st req i)) = comments st)"
    by (simp add: deletePost_def getSession_def post_delete_def no_dependents_votes no_dependents_comments
             split: option.splits sum.splits)
qed

lemma sample_mutation_results:
  "snd (createPost title_required sample_store (as_user ''alice'') ''p4'' 99 ''birds'' good_input)
     = Inl (ApolloError ''sub not found'')"
  "snd (createPost title_required sample_store (as_user ''alice'') ''p4'' 99 ''cats'' good_input)
     = Inr (mk_post ''p4'' ''alice'' ''cats'' 99\<lparr> post_title := ''hello'', post_body := ''world'' \<rparr>)"
  "snd (editPost sample_store (as_user ''bob'') 99 ''p1'' good_input) = Inl (ApolloError ''cannot update post'')"
  "snd (editPost sample_store (as_user ''alice'') 99 ''p1'' good_input)
     = Inr (p1\<lparr> post_title := ''hello'', post_body := ''world'', post_updatedAt := 99 \<rparr>)"
  "snd (deletePost Restrict sample_store (as_user ''alice'') ''p1'') = Inl (StoreFault ForeignKeyConstraint)"
  "snd (deletePost Cascade sample_store (as_user ''alice'') ''p1'') = Inr True"
  "snd (deletePost Restrict sample_store (as_user ''alice'') ''p3'') = Inr True"
  by code_simp+

theorem mutations_one_write_or_none_witness:
  "fst (createPost title_required sample_store (as_user ''alice'') ''p4'' 99 ''birds'' good_input) = sample_store
   \<and> fst (createPost title_required sample_store (as_user ''alice'') ''p4'' 99 ''cats'' good_input) =
       sample_store\<lparr> posts := posts sample_store
                              @ [mk_post ''p4'' ''alice'' ''cats'' 99\<lparr> post_title := ''hello'', post_body := ''world'' \<rparr>],
                     writeLog := [Created ''p4''] \<rparr>
   \<and> fst (editPost sample_store (as_user ''bob'') 99 ''p1'' good_input) = sample_store
   \<and> writeLog (fst (editPost sample_store (as_user ''alice'') 99 ''p1'' good_input)) = [Updated ''p1'']
   \<and> fst (deletePost Restrict sample_store (as_user ''alice'') ''p1'') = sample_store
   \<and> fst (deletePost Cascade sample_store (as_user ''alice'') ''p1'') =
       sample_store\<lparr> posts := [p2, p3], postVotes := [], comments := [], writeLog := [Deleted ''p1''] \<rparr>
   \<and> posts (fst (deletePost Restrict sample_store (as_user ''alice'') ''p3'')) = [p1, p2]
   \<and> postVotes (fst (deletePost Restrict sample_store (as_user ''alice'') ''p3'')) = postVotes sample_store
   \<and> comments (fst (deletePost Restrict sample_store (as_user ''alice'') ''p3'')) = comments sample_store
   \<and> writeLog (fst (deletePost Restrict sample_store (as_user ''alice'') ''p3'')) = [Deleted ''p3'']"
  using mutations_one_write_or_none[where vp=title_required and st=sample_store and req="as_user ''alice''"
          and newId="''p4''" and now=99 and sub="''birds''" and inp=good_input and i="''p1''" and od=Restrict]
        mutations_one_write_or_none[where vp=title_required and st=sample_store and req="as_user ''alice''"
          and newId="''p4''" and now=99 and sub="''cats''" and inp=good_input and i="''p1''" and od=Cascade]
        mutations_one_write_or_none[where vp=title_required and st=sample_store and req="as_user ''bob''"
          and newId="''p4''" and now=99 and sub="''cats''" and inp=good_input and i="''p1''" and od=Restrict]
        mutations_one_write_or_none[where vp=title_required and st=sample_store and req="as_user ''alice''"
          and newId="''p4''" and now=99 and sub="''cats''" and inp=good_input and i="''p3''" and od=Restrict]
  by (simp add: sample_mutation_results sample_without_p1 sample_without_p3 sample_writeLog mk_post_def)

section \<open>Repeated evaluation of the feed\<close>







section \<open>Regular expressions: the matcher decides the language\<close>

lemma nil_in_conc: "([] \<in> conc A B) = ([] \<in> A \<and> [] \<in> B)"
  by (auto simp: conc_def)

lemma nullable_lang: "nullable r = ([] \<in> lang r)"
  by (induction r) (auto simp: nil_in_conc intro: star.star_nil)

lemma cons_in_conc:
  "(c # s \<in> conc A B) =
     (([] \<in> A \<and> c # s \<in> B) \<or> (\<exists>xs ys. s = xs @ ys \<and> c # xs \<in> A \<and> ys \<in> B))"
proof
  assume "c # s \<in> conc A B"
  then obtain xs ys where e: "c # s = xs @ ys" and m: "xs \<in> A" "ys \<in> B"
    by (auto simp: conc_def)
  show "([] \<in> A \<and> c # s \<in> B) \<or> (\<exists>xs ys. s = xs @ ys \<and> c # xs \<in> A \<and> ys \<in> B)"
  proof (cases xs)
    case Nil
    with e m show ?thesis by simp
  next
    case (Cons x xs')
    with e m show ?thesis by auto
  qed
next
  assume "([] \<in> A \<and> c # s \<in> B) \<or> (\<exists>xs ys. s = xs @ ys \<and> c # xs \<in> A \<and> ys \<in> B)"
  then show "c # s \<in> conc A B"
  proof
    assume "[] \<in> A \<and> c # s \<in> B"
    then have "[] @ (c # s) \<in> conc A B" unfolding conc_def by blast
    then show ?thesis by simp
  next
    assume "\<exists>xs ys. s = xs @ ys \<and> c # xs \<in> A \<and> ys \<in> B"
    then obtain xs ys where "s = xs @ ys" "c # xs \<in> A" "ys \<in> B" by blast
    then have "(c # xs) @ ys \<in> conc A B" unfolding conc_def by blast
    with \<open>s = xs @ ys\<close> show ?thesis by simp
  qed
qed

lemma star_cons_split:
  "w \<in> star A \<Longrightarrow> w = c # s \<Longrightarrow> \<exists>xs ys. s = xs @ ys \<and> c # xs \<in> A \<and> ys \<in> star A"
proof (induction arbitrary: s rule: star.induct)
  case star_nil
  then show ?case by simp
next
  case (star_app xs ys)
  show ?case
  proof (cases xs)
    case Nil
    with star_app show ?thesis by simp
  next
    case (Cons x xs')
    with star_app.prems have "x = c" "s = xs' @ ys" by simp_all
    with Cons star_app.hyps show ?thesis by blast
  qed
qed

lemma cons_in_star:
  "(c # s \<in> star A) = (\<exists>xs ys. s = xs @ ys \<and> c # xs \<in> A \<and> ys \<in> star A)"
proof
  assume "c # s \<in> star A"
  then show "\<exists>xs ys. s = xs @ ys \<and> c # xs \<in> A \<and> ys \<in> star A"
    by (rule star_cons_split) simp
next
  assume "\<exists>xs ys. s = xs @ ys \<and> c # xs \<in> A \<and> ys \<in> star A"
  then obtain xs ys where "s = xs @ ys" "c # xs \<in> A" "ys \<in> star A" by blast
  then have "(c # xs) @ ys \<in> star A" by (intro star.star_app)
  with \<open>s = xs @ ys\<close> show "c # s \<in> star A" by simp
qed

lemma lang_deriv: "(s \<in> lang (deriv c r)) = (c # s \<in> lang r)"
proof (induction r arbitrary: s)
  case (Seq r1 r2)
  have "(s \<in> conc (lang (deriv c r1)) (lang r2)) =
        (\<exists>xs ys. s = xs @ ys \<and> c # xs \<in> lang r1 \<and> ys \<in> lang r2)"
    unfolding conc_def using Seq.IH(1) by blast
  with Seq.IH(2) show ?case
    by (auto simp: cons_in_conc nullable_lang)
next
  case (Star r)
  have "(s \<in> conc (lang (deriv c r)) (star (lang r))) =
        (\<exists>xs ys. s = xs @ ys \<and> c # xs \<in> lang r \<and> ys \<in> star (lang r))"
    unfolding conc_def using Star.IH by blast
  then show ?case by (simp add: cons_in_star)
qed auto

lemma rx_match_lang: "rx_match r s = (s \<in> lang r)"
  by (induction s arbitrary: r) (simp_all add: nullable_lang lang_deriv)

lemma rx_prefix_lang: "rx_prefix r s = (\<exists>p q. s = p @ q \<and> p \<in> lang r)"
proof (induction s arbitrary: r)
  case Nil
  then show ?case by (simp add: nullable_lang)
next
  case (Cons c s)
  have "(\<exists>p q. c # s = p @ q \<and> p \<in> lang r) =
        ([] \<in> lang r \<or> (\<exists>p q. s = p @ q \<and> c # p \<in> lang r))"
    by (auto simp: Cons_eq_append_conv)
  with Cons.IH[of "deriv c r"] show ?case
    by (simp add: nullable_lang lang_deriv)
qed

lemma rx_search_lang: "rx_search r s = (\<exists>a p q. s = a @ p @ q \<and> p \<in> lang r)"
proof (induction s)
  case Nil
  then show ?case by (simp add: nullable_lang)
next
  case (Cons c s)
  have "(\<exists>a p q. c # s = a @ p @ q \<and> p \<in> lang r) =
        ((\<exists>p q. c # s = p @ q \<and> p \<in> lang r) \<or> (\<exists>a p q. s = a @ p @ q \<and> p \<in> lang r))"
  proof
    assume "\<exists>a p q. c # s = a @ p @ q \<and> p \<in> lang r"
    then obtain a p q where e: "c # s = a @ p @ q" and m: "p \<in> lang r" by blast
    show "(\<exists>p q. c # s = p @ q \<and> p \<in> lang r) \<or> (\<exists>a p q. s = a @ p @ q \<and> p \<in> lang r)"
    proof (cases a)
      case Nil
      with e m show ?thesis by auto
    next
      case (Cons x a')
      with e have "s = a' @ p @ q" by simp
      with m show ?thesis by blast
    qed
  next
    assume "(\<exists>p q. c # s = p @ q \<and> p \<in> lang r) \<or> (\<exists>a p q. s = a @ p @ q \<and> p \<in> lang r)"
    then show "\<exists>a p q. c # s = a @ p @ q \<and> p \<in> lang r"
    proof
      assume "\<exists>p q. c # s = p @ q \<and> p \<in> lang r"
      then obtain p q where "c # s = [] @ p @ q" "p \<in> lang r" by auto
      then show ?thesis by blast
    next
      assume "\<exists>a p q. s = a @ p @ q \<and> p \<in> lang r"
      then obtain a p q where "c # s = (c # a) @ p @ q" "p \<in> lang r" by auto
      then show ?thesis by blast
    qed
  qed
  with Cons.IH show ?case
    by (simp only: rx_search.simps rx_prefix_lang)
qed

lemma lang_times_class:
  "(s \<in> lang (rx_times (Cls rs) k)) = (length s = k \<and> (\<forall>c \<in> set s. in_class rs c))"
proof (induction k arbitrary: s)
  case 0
  then show ?case by auto
next
  case (Suc k)
  show ?case
  proof (cases s)
    case Nil
    then show ?thesis by (simp add: nil_in_conc)
  next
    case (Cons c t)
    have "(c # t \<in> conc {[c] | c. in_class rs c} (lang (rx_times (Cls rs) k))) =
          (in_class rs c \<and> t \<in> lang (rx_times (Cls rs) k))"
      by (auto simp: cons_in_conc)
    with Suc.IH[of t] Cons show ?thesis by auto
  qed
qed

lemma nil_in_lang_upto: "[] \<in> lang (rx_upto r k)"
  by (cases k) simp_all

lemma in_class_alnum: "in_class alnum c = is_alnum c"
  by (simp add: in_class_def alnum_def in_range_def is_alnum_def Let_def)

lemma search_rep_class:
  assumes "m \<le> n"
  shows "rx_search (Rep m n (Cls rs)) s =
           (\<exists>a p q. s = a @ p @ q \<and> length p = m \<and> (\<forall>c \<in> set p. in_class rs c))"
proof
  assume "rx_search (Rep m n (Cls rs)) s"
  then obtain a p q where e: "s = a @ p @ q" and p: "p \<in> lang (Rep m n (Cls rs))"
    unfolding rx_search_lang by blast
  from p obtain x y where xy: "p = x @ y" "x \<in> lang (rx_times (Cls rs) m)"
    by (auto simp: Rep_def conc_def)
  then have "length x = m \<and> (\<forall>c \<in> set x. in_class rs c)" by (simp add: lang_times_class)
  moreover from e xy have "s = a @ x @ (y @ q)" by simp
  ultimately show "\<exists>a p q. s = a @ p @ q \<and> length p = m \<and> (\<forall>c \<in> set p. in_class rs c)" by blast
next
  assume "\<exists>a p q. s = a @ p @ q \<and> length p = m \<and> (\<forall>c \<in> set p. in_class rs c)"
  then obtain a p q where e: "s = a @ p @ q" and p: "length p = m" "\<forall>c \<in> set p. in_class rs c"
    by blast
  then have "p \<in> lang (rx_times (Cls rs) m)" by (simp add: lang_times_class)
  then have "p @ [] \<in> lang (Rep m n (Cls rs))"
    unfolding Rep_def lang.simps conc_def using nil_in_lang_upto by blast
  with e show "rx_search (Rep m n (Cls rs)) s"
    unfolding rx_search_lang by auto
qed

lemma usernameRegex_test_iff:
  "regex_test usernameRegex u =
     (\<exists>a p q. u = a @ p @ q \<and> length p = 3 \<and> (\<forall>c \<in> set p. is_alnum c))"
  by (simp add: regex_test_def usernameRegex_def search_rep_class in_class_alnum)

lemma sample_register_tests:
  "regex_test emailRegex ''a@b.co''"
  "regex_test usernameRegex ''bob''"
  "regex_test usernameRegex ''abcdefghijklmnop''"
  "regex_test usernameRegex ''!!abc!!''"
  "\<not> regex_test usernameRegex ''a-b-c''"
  by code_simp+

section \<open>Password length in \<open>validateRegister\<close>\<close>

text \<open>
  C9. \<open>validateRegister\<close> never returns the password fault for a password of length 4 or
  more; for an input whose email and username pass their checks it returns the password
  fault exactly when the password is shorter than 4, and no fault exactly when it has
  length at least 4.  The message of the fault speaks of 8 characters.
\<close>

theorem password_threshold_is_four:
  "(4 \<le> length (ri_password i) \<longrightarrow>
      validateRegister i \<noteq> Some ''password must be at least 8 characters'')
   \<and> (regex_test emailRegex (ri_email i) \<and> regex_test usernameRegex (ri_username i) \<longrightarrow>
        (validateRegister i = Some ''password must be at least 8 characters'')
          = (length (ri_password i) < 4)
      \<and> (validateRegister i = None) = (4 \<le> length (ri_password i)))"
  by (auto simp: validateRegister_def)

theorem password_threshold_is_four_witness:
  "regex_test emailRegex ''a@b.co'' \<and> regex_test usernameRegex ''bob''
   \<and> validateRegister \<lparr> ri_email = ''a@b.co'', ri_password = ''abcd'', ri_username = ''bob'' \<rparr> = None
   \<and> length ''abcdefg'' < 8
   \<and> validateRegister \<lparr> ri_email = ''a@b.co'', ri_password = ''abcdefg'', ri_username = ''bob'' \<rparr> = None
   \<and> validateRegister \<lparr> ri_email = ''a@b.co'', ri_password = ''abc'', ri_username = ''bob'' \<rparr>
       = Some ''password must be at least 8 characters''"
  using password_threshold_is_four[of "\<lparr> ri_email = ''a@b.co'', ri_password = ''abcd'', ri_username = ''bob'' \<rparr>"]
        password_threshold_is_four[of "\<lparr> ri_email = ''a@b.co'', ri_password = ''abcdefg'', ri_username = ''bob'' \<rparr>"]
        password_threshold_is_four[of "\<lparr> ri_email = ''a@b.co'', ri_password = ''abc'', ri_username = ''bob'' \<rparr>"]
  by (simp add: sample_register_tests)

section \<open>The username check of \<open>validateRegister\<close>\<close>

text \<open>
  C10. The username check is a search, not a match of the whole string: a username
  passes exactly when three alphanumeric characters stand next to each other somewhere
  in it, whatever stands before and after them, so also when it is longer than 12
  characters or holds other characters; for an input whose email passes,
  \<open>validateRegister\<close> returns the username fault exactly when the username has no such
  run of three.
\<close>

theorem username_check_is_a_search:
  "regex_test usernameRegex u =
     (\<exists>a p q. u = a @ p @ q \<and> length p = 3 \<and> (\<forall>c \<in> set p. is_alnum c))
   \<and> (regex_test emailRegex (ri_email i) \<longrightarrow>
        (validateRegister i = Some ''username should be 3-12 characters'')
          = (\<not> (\<exists>a p q. ri_username i = a @ p @ q \<and> length p = 3 \<and> (\<forall>c \<in> set p. is_alnum c))))"
  by (simp add: validateRegister_def usernameRegex_test_iff)

theorem username_check_is_a_search_witness:
  "12 < length ''abcdefghijklmnop''
   \<and> (\<exists>a p q. ''abcdefghijklmnop'' = a @ p @ q \<and> length p = 3 \<and> (\<forall>c \<in> set p. is_alnum c))
   \<and> regex_test usernameRegex ''abcdefghijklmnop''
   \<and> \<not> is_alnum CHR ''!''
   \<and> regex_test usernameRegex ''!!abc!!''
   \<and> \<not> (\<exists>a p q. ''a-b-c'' = a @ p @ q \<and> length p = 3 \<and> (\<forall>c \<in> set p. is_alnum c))
   \<and> regex_test emailRegex ''a@b.co''
   \<and> validateRegister \<lparr> ri_email = ''a@b.co'', ri_password = ''abcdefgh'', ri_username = ''a-b-c'' \<rparr>
       = Some ''username should be 3-12 characters''"
  using username_check_is_a_search[of "''abcdefghijklmnop''"
          "\<lparr> ri_email = ''a@b.co'', ri_password = ''abcdefgh'', ri_username = ''a-b-c'' \<rparr>"]
        username_check_is_a_search[of "''a-b-c''"
          "\<lparr> ri_email = ''a@b.co'', ri_password = ''abcdefgh'', ri_username = ''a-b-c'' \<rparr>"]
  by (simp add: sample_register_tests is_alnum_def)

end
